theory Spec2Isabelle
  imports Main "HOL-Library.Multiset"
begin

section \<open>JavaScript library operations used by the sources\<close>

text \<open>
  Strings are lists of characters (code units). Numbers that the sources use as counts,
  priorities and limits are integers.
\<close>

text \<open>
  \<^verbatim>\<open>Array.prototype.slice(start, end)\<close>: a negative index counts from the end of the
  array, every index is clamped to the array, and a missing \<open>end\<close> is the length.
\<close>

definition js_rel_index :: "int \<Rightarrow> int \<Rightarrow> int" where
  "js_rel_index len k = (if k < 0 then max (len + k) 0 else min k len)"

definition js_slice :: "int \<Rightarrow> int option \<Rightarrow> 'a list \<Rightarrow> 'a list" where
  "js_slice start fin xs =
     (let len = int (length xs);
          from = js_rel_index len start;
          to = (case fin of None \<Rightarrow> len | Some e \<Rightarrow> js_rel_index len e)
      in take (nat (to - from)) (drop (nat from) xs))"

text \<open>
  \<^verbatim>\<open>Array.prototype.sort(compare)\<close> is stable: of two elements that the comparator does
  not order strictly, the one that came first stays first. It is modelled as the stable
  insertion sort: an element is put before the first element it does not have to follow.
\<close>

fun js_insert :: "('a \<Rightarrow> 'a \<Rightarrow> int) \<Rightarrow> 'a \<Rightarrow> 'a list \<Rightarrow> 'a list" where
  "js_insert cmp x [] = [x]"
| "js_insert cmp x (y # ys) = (if cmp x y \<le> 0 then x # y # ys else y # js_insert cmp x ys)"

fun js_sort :: "('a \<Rightarrow> 'a \<Rightarrow> int) \<Rightarrow> 'a list \<Rightarrow> 'a list" where
  "js_sort cmp [] = []"
| "js_sort cmp (x # xs) = js_insert cmp x (js_sort cmp xs)"

text \<open>\<^verbatim>\<open>String.prototype.split(d)\<close> for a one-character separator: never an empty array.\<close>

fun js_split :: "char \<Rightarrow> string \<Rightarrow> string list" where
  "js_split d [] = [[]]"
| "js_split d (c # cs) =
     (if c = d then [] # js_split d cs
      else (case js_split d cs of [] \<Rightarrow> [[c]] | s # ss \<Rightarrow> (c # s) # ss))"

text \<open>\<^verbatim>\<open>Array.prototype.join(sep)\<close> on an array of strings.\<close>

fun js_join :: "string \<Rightarrow> string list \<Rightarrow> string" where
  "js_join sep [] = []"
| "js_join sep [s] = s"
| "js_join sep (s # t # ss) = s @ sep @ js_join sep (t # ss)"

text \<open>\<^verbatim>\<open>String.prototype.startsWith\<close> and \<^verbatim>\<open>String.prototype.includes\<close>.\<close>

definition js_startsWith :: "string \<Rightarrow> string \<Rightarrow> bool" where
  "js_startsWith s p = (take (length p) s = p)"

fun js_includes :: "string \<Rightarrow> string \<Rightarrow> bool" where
  "js_includes [] p = (p = [])"
| "js_includes (c # cs) p = (js_startsWith (c # cs) p \<or> js_includes cs p)"


section \<open>Suggestion engine\<close>

text \<open>
  The edit distance comes from the package \<^verbatim>\<open>fast-levenshtein\<close>, which is not part of
  the repository: every function below takes it as the parameter \<open>lev\<close>, a function from
  two strings to a natural number (\<^verbatim>\<open>levenshtein.get(target, id, {useCollator: true})\<close>).
\<close>

record Ranked =
  distance :: nat
  id_r :: string

definition rank :: "(string \<Rightarrow> string \<Rightarrow> nat) \<Rightarrow> string \<Rightarrow> string \<Rightarrow> Ranked" where
  "rank lev target i = \<lparr>distance = lev target i, id_r = i\<rparr>"

definition by_distance :: "Ranked \<Rightarrow> Ranked \<Rightarrow> int" where
  "by_distance a b = int (distance a) - int (distance b)"

text \<open>\<^verbatim>\<open>getOrderedSuggestions(target, possibilities, limit = 3)\<close>; \<open>None\<close> is an omitted limit.\<close>

definition getOrderedSuggestions ::
  "(string \<Rightarrow> string \<Rightarrow> nat) \<Rightarrow> string \<Rightarrow> string list \<Rightarrow> int option \<Rightarrow> string list" where
  "getOrderedSuggestions lev target possibilities limit =
     map id_r
       (js_slice 0 (Some (case limit of None \<Rightarrow> 3 | Some l \<Rightarrow> l))
          (js_sort by_distance (map (rank lev target) possibilities)))"

text \<open>\<^verbatim>\<open>findRelatedCommands(target, commandIDs, limit = 2)\<close>.\<close>

definition findRelatedCommands :: "string \<Rightarrow> string list \<Rightarrow> int option \<Rightarrow> string list" where
  "findRelatedCommands target commandIDs limit =
     (let parts = js_split CHR '':'' target
      in js_slice 0 (Some (case limit of None \<Rightarrow> 2 | Some l \<Rightarrow> l))
           (filter (\<lambda>cmd. cmd \<noteq> target)
              (filter (\<lambda>cmd. list_ex (\<lambda>part. js_includes cmd part) parts) commandIDs)))"

text \<open>\<^verbatim>\<open>closest(target, possibilities)\<close>: the first element of the sorted array, or \<open>''\<close>.\<close>

definition closest :: "(string \<Rightarrow> string \<Rightarrow> nat) \<Rightarrow> string \<Rightarrow> string list \<Rightarrow> string" where
  "closest lev target possibilities =
     (case js_sort by_distance (map (rank lev target) possibilities) of
        [] \<Rightarrow> []
      | r # _ \<Rightarrow> id_r r)"

text \<open>
  For evaluations on concrete strings: the usual two-row computation of the edit distance
  (insertion, deletion and substitution each cost one), comparing characters exactly.
\<close>

fun lev_row :: "char \<Rightarrow> string \<Rightarrow> nat list \<Rightarrow> nat \<Rightarrow> nat list" where
  "lev_row x (y # ys) (diag # up # prev) left =
     (let v = min (diag + (if x = y then 0 else 1)) (min (left + 1) (up + 1))
      in v # lev_row x ys (up # prev) v)"
| "lev_row x _ _ left = []"

fun lev_rows :: "string \<Rightarrow> string \<Rightarrow> nat list \<Rightarrow> nat list" where
  "lev_rows [] ys row = row"
| "lev_rows (x # xs) ys row = lev_rows xs ys (Suc (hd row) # lev_row x ys row (Suc (hd row)))"

definition levenshtein :: "string \<Rightarrow> string \<Rightarrow> nat" where
  "levenshtein s t = last (lev_rows s t (upt 0 (Suc (length t))))"


section \<open>Command history\<close>

record HistoryEntry =
  command :: string
  timestamp :: string

text \<open>
  \<^verbatim>\<open>saveCommandHistory(config, command)\<close> reads and writes one property of the
  configuration object, \<^verbatim>\<open>config.commandHistory\<close>; \<open>None\<close> is a property that is not
  set. The time stamp \<^verbatim>\<open>new Date().toISOString()\<close> is the parameter \<open>now\<close>.
\<close>

definition saveCommandHistory ::
  "HistoryEntry list option \<Rightarrow> string \<Rightarrow> string \<Rightarrow> HistoryEntry list option" where
  "saveCommandHistory commandHistory cmd now =
     (let h = (case commandHistory of None \<Rightarrow> [] | Some old \<Rightarrow> old);
          h' = h @ [\<lparr>command = cmd, timestamp = now\<rparr>]
      in if length h' > 100 then Some (js_slice (- 100) None h') else Some h')"

text \<open>A sequence of appends, each with its command and its time stamp.\<close>

fun saveAll :: "HistoryEntry list option \<Rightarrow> (string \<times> string) list \<Rightarrow> HistoryEntry list option" where
  "saveAll h [] = h"
| "saveAll h ((cmd, now) # rest) = saveAll (saveCommandHistory h cmd now) rest"

definition entries :: "HistoryEntry list option \<Rightarrow> HistoryEntry list" where
  "entries h = (case h of None \<Rightarrow> [] | Some es \<Rightarrow> es)"

definition entry_of :: "string \<times> string \<Rightarrow> HistoryEntry" where
  "entry_of p = \<lparr>command = fst p, timestamp = snd p\<rparr>"

definition last_n :: "nat \<Rightarrow> 'a list \<Rightarrow> 'a list" where
  "last_n n xs = drop (length xs - n) xs"


section \<open>Hook manager\<close>

text \<open>
  Values that travel through hooks: arguments, results, thrown values and the entries of
  the shared context. \<open>Err m\<close> is an \<^verbatim>\<open>Error\<close> object with message \<open>m\<close>; \<open>Obj l\<close> is any
  other object, known by a label. Thrown values are \<^verbatim>\<open>Error\<close> objects or values that
  \<^verbatim>\<open>String(...)\<close> converts.
\<close>

datatype js_value = Undefined | Str string | Num int | StrArr "string list" | Err string | Obj string

definition digit_char :: "nat \<Rightarrow> char" where
  "digit_char n = ''0123456789'' ! (n mod 10)"

function show_nat :: "nat \<Rightarrow> string" where
  "show_nat n = (if n < 10 then [digit_char n] else show_nat (n div 10) @ [digit_char (n mod 10)])"
  by pat_completeness auto
termination
  by (relation "measure (\<lambda>n. n)") auto

declare show_nat.simps [simp del]

definition show_int :: "int \<Rightarrow> string" where
  "show_int i = (if i < 0 then CHR ''-'' # show_nat (nat (- i)) else show_nat (nat i))"

text \<open>\<^verbatim>\<open>String(v)\<close>, as the \<^verbatim>\<open>catch\<close> clause of \<^verbatim>\<open>execute\<close> applies it.\<close>

fun js_String :: "js_value \<Rightarrow> string" where
  "js_String Undefined = ''undefined''"
| "js_String (Str s) = s"
| "js_String (Num n) = show_int n"
| "js_String (StrArr xs) = js_join '','' xs"
| "js_String (Err m) = ''Error: '' @ m"
| "js_String (Obj l) = ''[object Object]''"

text \<open>\<^verbatim>\<open>error instanceof Error ? error : new Error(String(error))\<close>\<close>

fun to_Error :: "js_value \<Rightarrow> js_value" where
  "to_Error (Err m) = Err m"
| "to_Error v = Err (js_String v)"

text \<open>
  The data of the class \<^verbatim>\<open>HookContext\<close>, keyed by strings, and its method \<^verbatim>\<open>set\<close>, the
  one the handler below calls.
\<close>

type_synonym HookContext = "string \<rightharpoonup> js_value"

definition HookContext_set :: "string \<Rightarrow> js_value \<Rightarrow> HookContext \<Rightarrow> HookContext" where
  "HookContext_set key v data = data(key \<mapsto> v)"

text \<open>
  A property of the options object passed to \<^verbatim>\<open>register\<close> is missing, or present with
  the value \<^verbatim>\<open>undefined\<close>, or present with a number: the spread
  \<^verbatim>\<open>{ ...defaultOptions, ...options }\<close> keeps the default only for a missing property.
  The properties \<^verbatim>\<open>description\<close> and \<^verbatim>\<open>tags\<close> are stored and never read; they are left out.
\<close>

datatype 'a property = Absent | Undef | Val 'a

record HookOptionsArg =
  priority_arg :: "int property"
  timeout_arg :: "int property"

record HookOptions =
  priority :: "int option"
  timeout :: "int option"

definition spread :: "'a \<Rightarrow> 'a property \<Rightarrow> 'a option" where
  "spread dflt p = (case p of Absent \<Rightarrow> Some dflt | Undef \<Rightarrow> None | Val v \<Rightarrow> Some v)"

definition merge_options :: "HookOptionsArg \<Rightarrow> HookOptions" where
  "merge_options opts =
     \<lparr>priority = spread 10 (priority_arg opts), timeout = spread 30000 (timeout_arg opts)\<rparr>"

text \<open>
  What one call of a handler does, as the race in \<^verbatim>\<open>execute\<close> sees it: the call throws;
  or the value it returns is fulfilled, after some milliseconds, before the timer fires;
  or it is rejected before the timer fires; or the timer of \<^verbatim>\<open>timeout || 30000\<close>
  milliseconds fires while the returned promise is still pending. The timer starts when
  the call has returned.
\<close>

datatype behaviour = Throws js_value | Fulfils js_value nat | Rejects js_value | TimerFirst

text \<open>
  A handler receives the arguments and may read and write the shared context, which it
  reaches as its first argument (\<^verbatim>\<open>executeWithContext\<close>) or through the exported manager.
\<close>

type_synonym HookFunction = "js_value list \<Rightarrow> HookContext \<Rightarrow> behaviour \<times> HookContext"

record Hook =
  fn :: HookFunction
  options :: HookOptions

record HookResult =
  success :: bool
  result_value :: "js_value option"
  error :: "js_value option"
  duration :: "nat option"

record HookManager =
  hooks :: "string \<rightharpoonup> Hook list"
  hook_context :: HookContext

definition new_HookManager :: HookManager where
  "new_HookManager = \<lparr>hooks = Map.empty, hook_context = Map.empty\<rparr>"

text \<open>\<^verbatim>\<open>x || 0\<close> on a number or \<^verbatim>\<open>undefined\<close>.\<close>

definition or_zero :: "int option \<Rightarrow> int" where
  "or_zero p = (case p of None \<Rightarrow> 0 | Some v \<Rightarrow> v)"

definition by_priority :: "Hook \<Rightarrow> Hook \<Rightarrow> int" where
  "by_priority a b = or_zero (priority (options b)) - or_zero (priority (options a))"

definition chain :: "HookManager \<Rightarrow> string \<Rightarrow> Hook list" where
  "chain m name = (case hooks m name of None \<Rightarrow> [] | Some hs \<Rightarrow> hs)"

text \<open>\<^verbatim>\<open>HookManager.register(name, fn, options = {})\<close>\<close>

definition register :: "string \<Rightarrow> HookFunction \<Rightarrow> HookOptionsArg \<Rightarrow> HookManager \<Rightarrow> HookManager" where
  "register name f opts m =
     (let hookOptions = merge_options opts;
          hs = chain m name @ [\<lparr>fn = f, options = hookOptions\<rparr>]
      in m\<lparr>hooks := (hooks m)(name \<mapsto> js_sort by_priority hs)\<rparr>)"

text \<open>A sequence of \<^verbatim>\<open>register\<close> calls.\<close>

fun register_all :: "(string \<times> HookFunction \<times> HookOptionsArg) list \<Rightarrow> HookManager \<Rightarrow> HookManager" where
  "register_all [] m = m"
| "register_all ((name, f, opts) # rest) m = register_all rest (register name f opts m)"

definition timeout_message :: "string \<Rightarrow> int option \<Rightarrow> string" where
  "timeout_message name t =
     ''Hook '' @ [CHR 0x27] @ name @ [CHR 0x27] @ '' timed out after ''
       @ (case t of None \<Rightarrow> ''undefined'' | Some n \<Rightarrow> show_int n) @ ''ms''"

definition hook_result :: "string \<Rightarrow> Hook \<Rightarrow> behaviour \<Rightarrow> HookResult" where
  "hook_result name hook b =
     (case b of
        Fulfils v d \<Rightarrow> \<lparr>success = True, result_value = Some v, error = None, duration = Some d\<rparr>
      | Throws e \<Rightarrow> \<lparr>success = False, result_value = None, error = Some (to_Error e), duration = None\<rparr>
      | Rejects e \<Rightarrow> \<lparr>success = False, result_value = None, error = Some (to_Error e), duration = None\<rparr>
      | TimerFirst \<Rightarrow>
          \<lparr>success = False, result_value = None,
           error = Some (Err (timeout_message name (timeout (options hook)))), duration = None\<rparr>)"

text \<open>The loop of \<^verbatim>\<open>execute\<close>: one handler after the other, one result pushed for each.\<close>

fun run_hooks :: "string \<Rightarrow> js_value list \<Rightarrow> Hook list \<Rightarrow> HookContext \<Rightarrow> HookResult list \<times> HookContext" where
  "run_hooks name args [] ctx = ([], ctx)"
| "run_hooks name args (hook # rest) ctx =
     (case fn hook args ctx of (b, ctx1) \<Rightarrow>
        (case run_hooks name args rest ctx1 of (results, ctx2) \<Rightarrow>
           (hook_result name hook b # results, ctx2)))"

text \<open>\<^verbatim>\<open>HookManager.execute(name, ...args)\<close>\<close>

definition execute :: "string \<Rightarrow> js_value list \<Rightarrow> HookManager \<Rightarrow> HookResult list \<times> HookManager" where
  "execute name args m =
     (case hooks m name of
        None \<Rightarrow> ([], m)
      | Some hs \<Rightarrow>
          (case run_hooks name args hs (hook_context m) of
             (results, ctx) \<Rightarrow> (results, m\<lparr>hook_context := ctx\<rparr>)))"

text \<open>\<^verbatim>\<open>HookManager.executeWithContext(name, ...args)\<close>: the context goes first.\<close>

definition executeWithContext :: "string \<Rightarrow> js_value list \<Rightarrow> HookManager \<Rightarrow> HookResult list \<times> HookManager" where
  "executeWithContext name args m = execute name (Obj ''HookContext'' # args) m"


text \<open>The priority a chain is ordered by.\<close>

definition effective_priority :: "Hook \<Rightarrow> int" where
  "effective_priority h = or_zero (priority (options h))"


definition throwing :: "js_value \<Rightarrow> HookFunction" where
  "throwing e = (\<lambda>args ctx. (Throws e, ctx))"

definition never_resolving :: HookFunction where
  "never_resolving = (\<lambda>args ctx. (TimerFirst, ctx))"



definition no_options :: HookOptionsArg where
  "no_options = \<lparr>priority_arg = Absent, timeout_arg = Absent\<rparr>"

text \<open>The hooks that a sequence of \<^verbatim>\<open>register\<close> calls puts under one name, in call order.\<close>

definition hook_of :: "string \<times> HookFunction \<times> HookOptionsArg \<Rightarrow> Hook" where
  "hook_of r = (case r of (name, f, opts) \<Rightarrow> \<lparr>fn = f, options = merge_options opts\<rparr>)"

definition registrations :: "string \<Rightarrow> (string \<times> HookFunction \<times> HookOptionsArg) list \<Rightarrow> Hook list" where
  "registrations n regs = map hook_of (filter (\<lambda>r. fst r = n) regs)"





definition failed :: "js_value \<Rightarrow> HookResult" where
  "failed e = \<lparr>success = False, result_value = None, error = Some e, duration = None\<rparr>"


section \<open>Plugin loader: plugins declared in the user configuration\<close>

text \<open>
  The default export of a plugin module, as far as the loader looks at it: its name and
  whether \<^verbatim>\<open>register\<close> and \<^verbatim>\<open>initialize\<close> are functions.
\<close>

record Plugin =
  plugin_name :: string
  has_register :: bool
  has_initialize :: bool

text \<open>
  Modelled from the spec: the plugin registry, whose module \<^verbatim>\<open>./pluginRegistry\<close> is not
  among the sources. It maps a plugin name to one plugin: \<^verbatim>\<open>registerPlugin\<close> inserts or
  overwrites by name, \<^verbatim>\<open>getPlugin\<close> returns the plugin or an absent value, and
  \<^verbatim>\<open>getAllPlugins\<close> returns the plugins in registration order.
\<close>

type_synonym PluginRegistry = "Plugin list"

definition getPlugin :: "string \<Rightarrow> PluginRegistry \<Rightarrow> Plugin option" where
  "getPlugin n reg = find (\<lambda>p. plugin_name p = n) reg"

definition registerPlugin :: "Plugin \<Rightarrow> PluginRegistry \<Rightarrow> PluginRegistry" where
  "registerPlugin p reg =
     (if getPlugin (plugin_name p) reg = None then reg @ [p]
      else map (\<lambda>q. if plugin_name q = plugin_name p then p else q) reg)"

definition getAllPlugins :: "PluginRegistry \<Rightarrow> Plugin list" where
  "getAllPlugins reg = reg"

text \<open>
  A dynamic \<^verbatim>\<open>import(specifier)\<close> throws, or gives a module with or without a default
  export. The file system and the module resolution are the environment of the loader.
\<close>

datatype import_result = ImportThrows | Module "Plugin option"

record LoaderEnv =
  import_module :: "string \<Rightarrow> import_result"
  path_resolve :: "string \<Rightarrow> string \<Rightarrow> string"

text \<open>
  The state of the loader: the registry, and the specifiers that were passed to
  \<^verbatim>\<open>import\<close>, in order.
\<close>

record LoaderState =
  registry :: PluginRegistry
  imported :: "string list"

definition MODULE_PREFIX :: string where
  "MODULE_PREFIX = ''asyncapi-cli-plugin-''"

text \<open>
  \<^verbatim>\<open>if (m.default && typeof m.default.register === 'function') registerPlugin(m.default)\<close>,
  inside a \<^verbatim>\<open>try\<close> that logs a failed import.
\<close>

definition register_default :: "import_result \<Rightarrow> PluginRegistry \<Rightarrow> PluginRegistry" where
  "register_default r reg =
     (case r of
        ImportThrows \<Rightarrow> reg
      | Module None \<Rightarrow> reg
      | Module (Some p) \<Rightarrow> if has_register p then registerPlugin p reg else reg)"

definition load_from :: "LoaderEnv \<Rightarrow> string \<Rightarrow> LoaderState \<Rightarrow> LoaderState" where
  "load_from env specifier st =
     \<lparr>registry = register_default (import_module env specifier) (registry st),
      imported = imported st @ [specifier]\<rparr>"

text \<open>
  The body of the loop of \<^verbatim>\<open>loadUserConfigPlugins\<close> for one entry
  \<^verbatim>\<open>[pluginName, config]\<close> of the \<^verbatim>\<open>plugins\<close> mapping; \<open>filepath\<close> is the path of the
  configuration file and \<open>path_resolve env filepath pluginName\<close> stands for
  \<^verbatim>\<open>path.resolve(path.dirname(result.filepath), pluginName)\<close>.
\<close>

definition load_config_entry :: "LoaderEnv \<Rightarrow> string \<Rightarrow> string \<times> bool \<Rightarrow> LoaderState \<Rightarrow> LoaderState" where
  "load_config_entry env filepath entry st =
     (case entry of (pluginName, enabled) \<Rightarrow>
        if enabled then
          if js_startsWith pluginName ''./'' \<or> js_startsWith pluginName ''/'' then
            load_from env (path_resolve env filepath pluginName) st
          else if getPlugin pluginName (registry st) = None then
            load_from env
              (if js_startsWith pluginName MODULE_PREFIX then pluginName
               else MODULE_PREFIX @ pluginName) st
          else st
        else st)"

text \<open>
  The result of the configuration search: it throws, finds nothing, or finds a file whose
  document has a \<^verbatim>\<open>plugins\<close> mapping or none.
\<close>

datatype search_result = SearchThrows | NotFound | Found string "(string \<times> bool) list option"

definition loadUserConfigPlugins :: "LoaderEnv \<Rightarrow> search_result \<Rightarrow> LoaderState \<Rightarrow> LoaderState" where
  "loadUserConfigPlugins env search st =
     (case search of
        Found filepath (Some pluginsConfig) \<Rightarrow>
          foldl (\<lambda>s entry. load_config_entry env filepath entry s) st pluginsConfig
      | _ \<Rightarrow> st)"

text \<open>The name under which the package of a configuration identifier is imported.\<close>

definition resolved_name :: "string \<Rightarrow> string" where
  "resolved_name pluginName =
     (if js_startsWith pluginName MODULE_PREFIX then pluginName else MODULE_PREFIX @ pluginName)"

definition is_path :: "string \<Rightarrow> bool" where
  "is_path pluginName = (js_startsWith pluginName ''./'' \<or> js_startsWith pluginName ''/'')"

text \<open>
  A registry that holds the plugin of the package \<^verbatim>\<open>asyncapi-cli-plugin-foo\<close> under the
  name of its package, and an environment in which that package can be imported.
\<close>

definition foo_plugin :: Plugin where
  "foo_plugin = \<lparr>plugin_name = ''asyncapi-cli-plugin-foo'', has_register = True, has_initialize = False\<rparr>"

definition foo_env :: LoaderEnv where
  "foo_env =
     \<lparr>import_module = (\<lambda>s. if s = ''asyncapi-cli-plugin-foo'' then Module (Some foo_plugin) else ImportThrows),
      path_resolve = (\<lambda>filepath p. filepath @ ''/../'' @ p)\<rparr>"

definition foo_loaded :: LoaderState where
  "foo_loaded = \<lparr>registry = [foo_plugin], imported = []\<rparr>"

definition nothing_loaded :: LoaderState where
  "nothing_loaded = \<lparr>registry = [], imported = []\<rparr>"

section \<open>The handler for a command that was not found\<close>

record Command =
  command_id :: string
  hidden :: bool
  aliases :: "string list"

text \<open>
  The configuration of the outer CLI, as far as the handler uses it. \<open>findTopic t\<close> says
  whether \<^verbatim>\<open>config.findTopic(t)\<close> finds a topic.
\<close>

record Config =
  bin :: string
  commandIDs :: "string list"
  commands :: "Command list"
  findTopic :: "string \<Rightarrow> bool"
  commandHistory :: "HistoryEntry list option"

record Opts =
  opts_id :: string
  opts_argv :: "string list option"
  opts_config :: Config

text \<open>
  What a confirmation prompt gives: \<^verbatim>\<open>true\<close>, \<^verbatim>\<open>false\<close>, the cancel symbol, or an
  exception. The handler compares the response with \<^verbatim>\<open>true\<close>.
\<close>

datatype answer = Yes | No | Cancelled | PromptFails

record Environment =
  edit_distance :: "string \<Rightarrow> string \<Rightarrow> nat"
  primary_answer :: answer
  alternative_answer :: answer
  now :: string

text \<open>
  How the handler ends: help was shown; there is no visible command; a command was run
  through \<^verbatim>\<open>config.runCommand(id, argv)\<close>; or \<^verbatim>\<open>this.error(message, {exit: code})\<close>.
  The lines written with \<^verbatim>\<open>this.warn\<close> and \<^verbatim>\<open>this.log\<close> and the colours are left out.
\<close>

datatype outcome = Helped | Empty | Resolved string "string list option" | Fatal string nat

definition COMMAND_BEFORE :: string where
  "COMMAND_BEFORE = ''command:before''"

definition COMMAND_AFTER :: string where
  "COMMAND_AFTER = ''command:after''"

definition argv_value :: "string list option \<Rightarrow> js_value" where
  "argv_value a = (case a of None \<Rightarrow> Undefined | Some xs \<Rightarrow> StrArr xs)"

definition visible_command_ids :: "Config \<Rightarrow> string list" where
  "visible_command_ids cfg =
     (let hiddenCommandIds = set (map command_id (filter hidden (commands cfg)))
      in filter (\<lambda>c. c \<notin> hiddenCommandIds) (commandIDs cfg @ concat (map aliases (commands cfg))))"

definition bin_help :: "Opts \<Rightarrow> string" where
  "bin_help opts =
     (let binHelp = bin (opts_config opts) @ '' help'';
          first = (case js_split CHR '':'' (opts_id opts) of [] \<Rightarrow> [] | s # _ \<Rightarrow> s)
      in if findTopic (opts_config opts) first then binHelp @ '' '' @ first else binHelp)"

text \<open>The regular expression \<^verbatim>\<open>/:?help:?/\<close> matches a string that contains \<^verbatim>\<open>help\<close>.\<close>

definition primary_suggestion :: "(string \<Rightarrow> string \<Rightarrow> nat) \<Rightarrow> string \<Rightarrow> string list \<Rightarrow> string" where
  "primary_suggestion dist i commandIds =
     (if js_includes i ''help''
      then js_join '':'' (''help'' # filter (\<lambda>cmd. cmd \<noteq> ''help'') (js_split CHR '':'' i))
      else closest dist i commandIds)"

definition alternative_suggestions ::
  "(string \<Rightarrow> string \<Rightarrow> nat) \<Rightarrow> string \<Rightarrow> string list \<Rightarrow> string \<Rightarrow> string list" where
  "alternative_suggestions dist i commandIds suggestion =
     filter (\<lambda>s. s \<noteq> suggestion) (getOrderedSuggestions dist i commandIds (Some 3))"

text \<open>The start of the handler: three entries of the context, then the pre-hooks.\<close>

definition start :: "Opts \<Rightarrow> HookManager \<Rightarrow> HookManager" where
  "start opts m =
     (let ctx = HookContext_set ''config'' (Obj ''config'')
                  (HookContext_set ''argv'' (argv_value (opts_argv opts))
                     (HookContext_set ''command'' (Str (opts_id opts)) (hook_context m)))
      in snd (executeWithContext COMMAND_BEFORE [Obj ''opts''] (m\<lparr>hook_context := ctx\<rparr>)))"

text \<open>
  \<^verbatim>\<open>opts.argv?.length ? opts.argv : opts.id.split(':').slice(suggestion.split(':').length)\<close>
\<close>

definition primary_argv :: "Opts \<Rightarrow> string \<Rightarrow> string list" where
  "primary_argv opts suggestion =
     (case opts_argv opts of
        Some (a # as) \<Rightarrow> a # as
      | _ \<Rightarrow> js_slice (int (length (js_split CHR '':'' suggestion))) None
               (js_split CHR '':'' (opts_id opts)))"

text \<open>The branch \<^verbatim>\<open>if (response === true)\<close>.\<close>

definition run_primary :: "Opts \<Rightarrow> string \<Rightarrow> HookManager \<Rightarrow> outcome \<times> HookManager" where
  "run_primary opts suggestion0 m =
     (let argv0 = primary_argv opts suggestion0;
          argv = (if js_startsWith suggestion0 ''help:''
                  then js_slice 1 None (js_split CHR '':'' suggestion0) else argv0);
          suggestion = (if js_startsWith suggestion0 ''help:'' then ''help'' else suggestion0)
      in if opts_id opts = ''help'' then (Resolved ''--help'' None, m)
         else
           (let ctx = HookContext_set ''suggestedArgv'' (StrArr argv)
                        (HookContext_set ''suggestedCommand'' (Str suggestion) (hook_context m));
                m' = snd (executeWithContext COMMAND_AFTER
                            [Obj ''opts'', Str suggestion, StrArr argv] (m\<lparr>hook_context := ctx\<rparr>))
            in (Resolved suggestion (Some argv), m')))"

text \<open>The branch \<^verbatim>\<open>if (altResponse === true)\<close>.\<close>

definition run_alternative :: "Opts \<Rightarrow> string \<Rightarrow> HookManager \<Rightarrow> outcome \<times> HookManager" where
  "run_alternative opts alt m =
     (let ctx = HookContext_set ''suggestedArgv'' (argv_value (opts_argv opts))
                  (HookContext_set ''suggestedCommand'' (Str alt) (hook_context m));
          m' = snd (executeWithContext COMMAND_AFTER
                      [Obj ''opts'', Str alt, argv_value (opts_argv opts)] (m\<lparr>hook_context := ctx\<rparr>))
      in (Resolved alt (opts_argv opts), m'))"

text \<open>The end of the handler, when no suggestion was accepted.\<close>

definition fail :: "Opts \<Rightarrow> HookManager \<Rightarrow> outcome \<times> HookManager" where
  "fail opts m =
     (let ctx = HookContext_set ''error'' (Err (''Command not found: '' @ opts_id opts)) (hook_context m);
          m' = snd (executeWithContext ''error'' [Obj ''opts''] (m\<lparr>hook_context := ctx\<rparr>))
      in (Fatal (''Run '' @ bin_help opts @ '' for a list of available commands.'') 127, m'))"

text \<open>
  \<^verbatim>\<open>commandNotFoundHook(opts)\<close>. The result is how the handler ends, the manager with the
  shared context as the handler and the hooks leave it, and the history of the
  configuration object.
\<close>

definition commandNotFoundHook ::
  "Environment \<Rightarrow> Opts \<Rightarrow> HookManager \<Rightarrow> outcome \<times> HookManager \<times> HistoryEntry list option" where
  "commandNotFoundHook env opts m0 =
     (let cfg = opts_config opts;
          m = start opts m0
      in if opts_id opts = ''--help'' then (Helped, m, commandHistory cfg)
         else
           (let commandIds = visible_command_ids cfg
            in if commandIds = [] then (Empty, m, commandHistory cfg)
               else
                 (let suggestion = primary_suggestion (edit_distance env) (opts_id opts) commandIds;
                      alternativeSuggestions =
                        alternative_suggestions (edit_distance env) (opts_id opts) commandIds suggestion;
                      history = saveCommandHistory (commandHistory cfg) (opts_id opts) (now env)
                  in if primary_answer env = Yes then
                       (case run_primary opts suggestion m of (out, m') \<Rightarrow> (out, m', history))
                     else
                       (case alternativeSuggestions of
                          [] \<Rightarrow> (case fail opts m of (out, m') \<Rightarrow> (out, m', history))
                        | alt # _ \<Rightarrow>
                            if alternative_answer env = Yes then
                              (case run_alternative opts alt m of (out, m') \<Rightarrow> (out, m', history))
                            else (case fail opts m of (out, m') \<Rightarrow> (out, m', history))))))"

text \<open>What the handler computes before it asks, for a given invocation.\<close>

definition suggestion_of :: "Environment \<Rightarrow> Opts \<Rightarrow> string" where
  "suggestion_of env opts =
     primary_suggestion (edit_distance env) (opts_id opts) (visible_command_ids (opts_config opts))"

definition alternatives_of :: "Environment \<Rightarrow> Opts \<Rightarrow> string list" where
  "alternatives_of env opts =
     alternative_suggestions (edit_distance env) (opts_id opts) (visible_command_ids (opts_config opts))
       (suggestion_of env opts)"

definition is_Fatal :: "outcome \<Rightarrow> bool" where
  "is_Fatal out = (case out of Fatal _ _ \<Rightarrow> True | _ \<Rightarrow> False)"

text \<open>Invocations on which the handler is evaluated.\<close>

definition cli_config :: Config where
  "cli_config =
     \<lparr>bin = ''asyncapi'', commandIDs = [''config:set'', ''config:get'', ''help''], commands = [],
      findTopic = (\<lambda>t. t = ''config''), commandHistory = None\<rparr>"

definition typo_opts :: Opts where
  "typo_opts = \<lparr>opts_id = ''confi:set'', opts_argv = Some [''--verbose''], opts_config = cli_config\<rparr>"

definition help_opts :: Opts where
  "help_opts =
     \<lparr>opts_id = ''help'', opts_argv = Some [''config''],
      opts_config = cli_config\<lparr>commandIDs := [''config:set'', ''config:get'']\<rparr>\<rparr>"

definition answering :: "answer \<Rightarrow> answer \<Rightarrow> Environment" where
  "answering p a =
     \<lparr>edit_distance = levenshtein, primary_answer = p, alternative_answer = a,
      now = ''2025-01-01T00:00:00.000Z''\<rparr>"

text \<open>A manager whose two handlers under \<^verbatim>\<open>error\<close> fail: one throws, one never settles.\<close>

definition failing_error_hooks :: HookManager where
  "failing_error_hooks = register_all
     [(''error'', throwing (Str ''boom''), no_options),
      (''error'', never_resolving, no_options)] new_HookManager"


section \<open>Properties of the library operations\<close>

lemma last_n_last_n: "last_n n (last_n n xs @ ys) = last_n n (xs @ ys)"
  by (cases "n \<le> length xs") (auto simp: last_n_def add.commute)

lemma js_insert_insort:
  assumes "\<And>a b. (cmp a b \<le> 0) = (k a \<le> k b)"
  shows "js_insert cmp x ys = insort_key k x ys"
  by (induction ys) (simp_all add: assms)

lemma js_sort_sort_key:
  assumes "\<And>a b. (cmp a b \<le> 0) = (k a \<le> k b)"
  shows "js_sort cmp xs = sort_key k xs"
  by (induction xs) (simp_all add: js_insert_insort[OF assms])

lemma insort_key_map: "insort_key f (g x) (map g ys) = map g (insort_key (\<lambda>a. f (g a)) x ys)"
  by (induction ys) simp_all

lemma sort_key_map: "sort_key f (map g xs) = map g (sort_key (\<lambda>a. f (g a)) xs)"
  by (induction xs) (simp_all add: insort_key_map)

lemma ranked_sorted: "js_sort by_distance (map (rank lev t) cs) = map (rank lev t) (sort_key (lev t) cs)"
proof -
  have "js_sort by_distance (map (rank lev t) cs) = sort_key distance (map (rank lev t) cs)"
    by (rule js_sort_sort_key) (simp add: by_distance_def)
  also have "\<dots> = map (rank lev t) (sort_key (\<lambda>a. distance (rank lev t a)) cs)"
    by (rule sort_key_map)
  also have "(\<lambda>a. distance (rank lev t a)) = lev t"
    by (rule ext) (simp add: rank_def)
  finally show ?thesis .
qed

lemma js_slice_map: "js_slice a b (map f xs) = map f (js_slice a b xs)"
  by (simp add: js_slice_def Let_def take_map drop_map)

lemma js_slice_take: "0 \<le> l \<Longrightarrow> js_slice 0 (Some l) xs = take (nat l) xs"
  by (auto simp: js_slice_def js_rel_index_def Let_def min_def)

lemma js_slice_take_nat: "js_slice 0 (Some (int k)) xs = take k xs"
  using js_slice_take[of "int k" xs] by simp

lemma suggestions_eq: "getOrderedSuggestions lev t cs limit =
   js_slice 0 (Some (case limit of None \<Rightarrow> 3 | Some l \<Rightarrow> l)) (sort_key (lev t) cs)"
  by (simp add: getOrderedSuggestions_def ranked_sorted js_slice_map rank_def comp_def)

lemma closest_eq: "closest lev t cs = (case sort_key (lev t) cs of [] \<Rightarrow> [] | c # _ \<Rightarrow> c)"
  by (simp add: closest_def ranked_sorted rank_def split: list.splits)

lemma hd_sort_key_first_min:
  assumes "sort_key k cs = c # rest"
  shows "\<exists>us vs. cs = us @ c # vs \<and> (\<forall>u\<in>set us. k c < k u) \<and> (\<forall>v\<in>set vs. k c \<le> k v)"
proof -
  have srt: "sorted (map k (c # rest))" using sorted_sort_key[of k cs] assms by simp
  have le: "\<forall>x\<in>set cs. k c \<le> k x"
  proof
    fix x assume "x \<in> set cs"
    then have "x \<in> set (c # rest)" using assms set_sort[of k cs] by simp
    with srt show "k c \<le> k x" by auto
  qed
  have "filter (\<lambda>y. k y = k c) cs = filter (\<lambda>y. k y = k c) (c # rest)"
    using sort_key_stable[of k "k c" cs] assms by simp
  then have "filter (\<lambda>y. k y = k c) cs = c # filter (\<lambda>y. k y = k c) rest" by simp
  then obtain us vs where d: "cs = us @ c # vs" and n: "\<forall>u\<in>set us. k u \<noteq> k c"
    unfolding filter_eq_Cons_iff by blast
  have "\<forall>u\<in>set us. k c < k u"
  proof
    fix u assume u: "u \<in> set us"
    then have "k c \<le> k u" using le d by simp
    moreover have "k u \<noteq> k c" using n u by blast
    ultimately show "k c < k u" by simp
  qed
  moreover have "\<forall>v\<in>set vs. k c \<le> k v" using le d by simp
  ultimately show ?thesis using d by blast
qed

lemma js_slice_last_100:
  assumes "100 < length xs"
  shows "js_slice (- 100) None xs = last_n 100 xs"
proof -
  have "nat (int (length xs) - 100) = length xs - 100" by simp
  with assms show ?thesis
    by (simp add: js_slice_def js_rel_index_def last_n_def Let_def)
qed

lemma entries_save:
  "entries (saveCommandHistory h c t) = last_n 100 (entries h @ [\<lparr>command = c, timestamp = t\<rparr>])"
  by (auto simp: saveCommandHistory_def entries_def js_slice_last_100 last_n_def Let_def
           split: option.splits)

lemma entries_saveAll:
  "entries (saveAll h (c # cs)) = last_n 100 (entries h @ map entry_of (c # cs))"
proof (induction cs arbitrary: h c)
  case Nil
  show ?case by (cases c) (simp add: entries_save entry_of_def)
next
  case (Cons d ds)
  obtain a b where c: "c = (a, b)" by (cases c)
  have "entries (saveAll h (c # d # ds)) = entries (saveAll (saveCommandHistory h a b) (d # ds))"
    by (simp add: c)
  also have "\<dots> = last_n 100 (entries (saveCommandHistory h a b) @ map entry_of (d # ds))"
    by (rule Cons.IH)
  also have "\<dots> = last_n 100 ((entries h @ [entry_of c]) @ map entry_of (d # ds))"
    unfolding entries_save by (simp only: last_n_last_n c entry_of_def fst_conv snd_conv)
  finally show ?case by simp
qed


lemma js_startsWith_iff: "js_startsWith s p = (\<exists>v. s = p @ v)"
proof
  assume "js_startsWith s p"
  then have "s = p @ drop (length p) s"
    unfolding js_startsWith_def by (metis append_take_drop_id)
  then show "\<exists>v. s = p @ v" ..
next
  assume "\<exists>v. s = p @ v"
  then show "js_startsWith s p" by (auto simp: js_startsWith_def)
qed

lemma js_includes_iff: "js_includes s p = (\<exists>u v. s = u @ p @ v)"
proof (induction s)
  case Nil
  show ?case by auto
next
  case (Cons c cs)
  show ?case
  proof
    assume "js_includes (c # cs) p"
    then consider "js_startsWith (c # cs) p" | "js_includes cs p" by auto
    then show "\<exists>u v. c # cs = u @ p @ v"
    proof cases
      case 1
      then obtain v where "c # cs = p @ v" unfolding js_startsWith_iff ..
      then have "c # cs = [] @ p @ v" by simp
      then show ?thesis by blast
    next
      case 2
      then obtain u v where "cs = u @ p @ v" using Cons.IH by blast
      then have "c # cs = (c # u) @ p @ v" by simp
      then show ?thesis by blast
    qed
  next
    assume "\<exists>u v. c # cs = u @ p @ v"
    then obtain u v where e: "c # cs = u @ p @ v" by blast
    show "js_includes (c # cs) p"
    proof (cases u)
      case Nil
      with e have "js_startsWith (c # cs) p" unfolding js_startsWith_iff by auto
      then show ?thesis by simp
    next
      case (Cons a u')
      with e have "cs = u' @ p @ v" by simp
      then have "js_includes cs p" using Cons.IH by blast
      then show ?thesis by simp
    qed
  qed
qed

lemma js_includes_empty: "js_includes s []"
  unfolding js_includes_iff by (rule exI[of _ "[]"], rule exI[of _ s]) simp

lemma js_split_not_Nil: "js_split d s \<noteq> []"
  by (induction s) (auto split: list.splits)

lemma js_split_append: "js_split d (a @ d # b) = js_split d a @ js_split d b"
proof (induction a)
  case Nil
  show ?case by simp
next
  case (Cons c a)
  obtain s ss where sp: "js_split d a = s # ss"
    using js_split_not_Nil[of d a] by (cases "js_split d a") auto
  show ?case using Cons.IH sp by simp
qed

lemma js_join_split: "js_join [d] (js_split d s) = s"
proof (induction s)
  case Nil
  show ?case by simp
next
  case (Cons c s)
  obtain x xs where sp: "js_split d s = x # xs"
    using js_split_not_Nil[of d s] by (cases "js_split d s") auto
  show ?case
  proof (cases "c = d")
    case True
    then show ?thesis using Cons.IH sp by simp
  next
    case False
    then show ?thesis using Cons.IH sp by (cases xs) auto
  qed
qed

lemma js_split_segments: "seg \<in> set (js_split d s) \<Longrightarrow> d \<notin> set seg"
proof (induction s arbitrary: seg)
  case Nil
  then show ?case by simp
next
  case (Cons c s)
  obtain x xs where sp: "js_split d s = x # xs"
    using js_split_not_Nil[of d s] by (cases "js_split d s") auto
  show ?case
  proof (cases "c = d")
    case True
    then show ?thesis using Cons by auto
  next
    case False
    then have "seg = c # x \<or> seg \<in> set xs" using Cons.prems sp by simp
    then show ?thesis
    proof
      assume "seg = c # x"
      moreover have "d \<notin> set x" using Cons.IH[of x] sp by simp
      ultimately show ?thesis using False by auto
    next
      assume "seg \<in> set xs"
      then show ?thesis using Cons.IH[of seg] sp by simp
    qed
  qed
qed

lemma empty_segment:
  assumes "(\<exists>u. t = d # u) \<or> (\<exists>u. t = u @ [d]) \<or> (\<exists>u v. t = u @ d # d # v)"
  shows "[] \<in> set (js_split d t)"
  using assms
proof (elim disjE exE)
  fix u assume "t = d # u" then show ?thesis by simp
next
  fix u assume "t = u @ [d]"
  then have "js_split d t = js_split d u @ js_split d []" by (simp only: js_split_append)
  then show ?thesis by simp
next
  fix u v assume "t = u @ d # d # v"
  then have "js_split d t = js_split d u @ js_split d (d # v)" by (simp only: js_split_append)
  then show ?thesis by simp
qed

lemma related_eq:
  "findRelatedCommands t cs limit =
     js_slice 0 (Some (case limit of None \<Rightarrow> 2 | Some l \<Rightarrow> l))
       (filter (\<lambda>c. c \<noteq> t \<and> (\<exists>seg\<in>set (js_split CHR '':'' t). \<exists>u v. c = u @ seg @ v)) cs)"
proof -
  have "\<And>c. list_ex (js_includes c) (js_split CHR '':'' t) = (\<exists>seg\<in>set (js_split CHR '':'' t). \<exists>u v. c = u @ seg @ v)"
    by (simp add: list_ex_iff js_includes_iff)
  then show ?thesis
    by (simp add: findRelatedCommands_def Let_def conj_commute)
qed



section \<open>Properties of the hook manager\<close>

lemma by_priority_key: "(by_priority a b \<le> 0) = (- effective_priority a \<le> - effective_priority b)"
  by (simp add: by_priority_def effective_priority_def)

lemma js_sort_by_priority: "js_sort by_priority hs = sort_key (\<lambda>h. - effective_priority h) hs"
  by (rule js_sort_sort_key) (rule by_priority_key)

lemma chain_register:
  "chain (register n f opts m) n' =
     (if n' = n then sort_key (\<lambda>h. - effective_priority h) (chain m n @ [hook_of (n, f, opts)])
      else chain m n')"
  by (simp add: register_def chain_def Let_def js_sort_by_priority hook_of_def)

lemma sort_key_sort_key_append:
  "sort_key k (sort_key k xs @ ys) = sort_key k (xs @ ys)"
proof (rule properties_for_sort_key)
  show "mset (sort_key k (xs @ ys)) = mset (sort_key k xs @ ys)" by simp
  show "sorted (map k (sort_key k (xs @ ys)))" by (rule sorted_sort_key)
  fix x
  have "filter (\<lambda>y. k y = k x) (sort_key k (xs @ ys)) = filter (\<lambda>y. k y = k x) (sort_key k xs @ ys)"
    by (simp add: sort_key_stable)
  then show "filter (\<lambda>y. k x = k y) (sort_key k (xs @ ys)) = filter (\<lambda>y. k x = k y) (sort_key k xs @ ys)"
    by (simp add: eq_commute[of "k x"])
qed

lemma chain_register_all:
  "chain (register_all regs m) n =
     (if registrations n regs = [] then chain m n
      else sort_key (\<lambda>h. - effective_priority h) (chain m n @ registrations n regs))"
proof (induction regs arbitrary: m)
  case Nil
  show ?case by (simp add: registrations_def)
next
  case (Cons r regs)
  obtain n' f opts where r: "r = (n', f, opts)" by (cases r)
  show ?case
  proof (cases "n' = n")
    case False
    then show ?thesis using Cons.IH[of "register n' f opts m"]
      by (simp add: r chain_register registrations_def)
  next
    case True
    have r': "r = (n, f, opts)" using r True by simp
    have reg: "registrations n ((n, f, opts) # regs) = hook_of (n, f, opts) # registrations n regs"
      by (simp add: registrations_def)
    have "chain (register_all (r # regs) m) n = chain (register_all regs (register n f opts m)) n"
      by (simp add: r')
    also have "\<dots> = (if registrations n regs = [] then chain (register n f opts m) n
       else sort_key (\<lambda>h. - effective_priority h) (chain (register n f opts m) n @ registrations n regs))"
      by (rule Cons.IH)
    also have "\<dots> = sort_key (\<lambda>h. - effective_priority h) (chain m n @ hook_of (n, f, opts) # registrations n regs)"
      by (simp add: chain_register sort_key_sort_key_append del: sort_key_simps)
    finally show ?thesis by (simp add: r' reg del: sort_key_simps)
  qed
qed

lemma chain_new: "chain (register_all regs new_HookManager) n = sort_key (\<lambda>h. - effective_priority h) (registrations n regs)"
  by (simp add: chain_register_all) (simp add: chain_def new_HookManager_def)





lemma execute_results: "fst (execute n a m) = fst (run_hooks n a (chain m n) (hook_context m))"
  by (auto simp: execute_def chain_def split: option.splits prod.splits)






section \<open>Properties of the handler\<close>

lemma hook_split_fst: "fst (case p of (out, m') \<Rightarrow> (out, m', h)) = fst p"
  by (cases p) simp

lemma out_start: "fst (run_primary opts s m) =
   (if opts_id opts = ''help'' then Resolved ''--help'' None
    else if js_startsWith s ''help:'' then Resolved ''help'' (Some (js_slice 1 None (js_split CHR '':'' s)))
    else Resolved s (Some (primary_argv opts s)))"
  by (simp add: run_primary_def Let_def)

lemma out_alt: "fst (run_alternative opts alt m) = Resolved alt (opts_argv opts)"
  by (simp add: run_alternative_def Let_def)

lemma out_fail: "fst (fail opts m) = Fatal (''Run '' @ bin_help opts @ '' for a list of available commands.'') 127"
  by (simp add: fail_def Let_def)

lemma outcome_cases:
  "fst (commandNotFoundHook env opts m0) =
    (if opts_id opts = ''--help'' then Helped
     else if visible_command_ids (opts_config opts) = [] then Empty
     else if primary_answer env = Yes then fst (run_primary opts (suggestion_of env opts) (start opts m0))
     else if alternatives_of env opts \<noteq> [] \<and> alternative_answer env = Yes
       then fst (run_alternative opts (hd (alternatives_of env opts)) (start opts m0))
     else fst (fail opts (start opts m0)))"
  by (auto simp: commandNotFoundHook_def Let_def suggestion_of_def alternatives_of_def hook_split_fst split: list.splits)


lemma js_slice_drop: "js_slice (int k) None xs = drop k xs"
  by (simp add: js_slice_def js_rel_index_def Let_def min_def)

lemma js_slice_tl: "js_slice 1 None xs = tl xs"
  using js_slice_drop[of 1 xs] by (simp add: drop_Suc)

lemma hooks_execute: "hooks (snd (execute n a m)) = hooks m"
  by (simp add: execute_def split: option.splits prod.splits)

lemma hooks_start: "hooks (start opts m) = hooks m"
  by (simp add: start_def Let_def executeWithContext_def hooks_execute)

lemma is_Fatal_simps [simp]:
  "is_Fatal (Fatal msg c)" "\<not> is_Fatal Helped" "\<not> is_Fatal Empty" "\<not> is_Fatal (Resolved s a)"
  by (simp_all add: is_Fatal_def)

lemma snd_fail: "\<exists>m1. hooks m1 = hooks m
   \<and> hook_context m1 ''error'' = Some (Err (''Command not found: '' @ opts_id opts))
   \<and> snd (fail opts m) = snd (executeWithContext ''error'' [Obj ''opts''] m1)"
  by (rule exI[of _ "m\<lparr>hook_context := HookContext_set ''error'' (Err (''Command not found: '' @ opts_id opts)) (hook_context m)\<rparr>"])
     (simp add: fail_def Let_def HookContext_set_def)

lemma manager_split: "fst (snd (case p of (out, m') \<Rightarrow> (out, m', h))) = snd p"
  by (cases p) simp

lemma sug_typo: "suggestion_of (answering Yes No) typo_opts = ''config:set''"
  by code_simp

lemma vis_typo: "visible_command_ids (opts_config typo_opts) = [''config:set'', ''config:get'', ''help'']"
  by (simp add: visible_command_ids_def typo_opts_def cli_config_def)


lemma execute_context:
  "hook_context (snd (execute n a m)) = snd (run_hooks n a (chain m n) (hook_context m))"
  by (auto simp: execute_def chain_def split: option.splits prod.splits)

lemma chain_start: "chain (start opts m) n = chain m n"
  by (simp add: chain_def hooks_start)

lemma context_after_fail:
  "hook_context (snd (fail opts m)) =
     snd (run_hooks ''error'' [Obj ''HookContext'', Obj ''opts''] (chain m ''error'')
            (HookContext_set ''error'' (Err (''Command not found: '' @ opts_id opts)) (hook_context m)))"
  by (simp add: fail_def Let_def executeWithContext_def execute_context chain_def)

lemma manager_after_fail:
  assumes "opts_id opts \<noteq> ''--help''" and "visible_command_ids (opts_config opts) \<noteq> []"
    and "primary_answer env \<noteq> Yes"
    and "alternatives_of env opts = [] \<or> alternative_answer env \<noteq> Yes"
  shows "fst (snd (commandNotFoundHook env opts m0)) = snd (fail opts (start opts m0))"
  using assms
  by (auto simp: commandNotFoundHook_def Let_def manager_split suggestion_of_def alternatives_of_def
           split: list.splits)



section \<open>The claims\<close>

subsection \<open>Hook chains\<close>





subsection \<open>Suggestion engine\<close>

text \<open>
  Claim C3. \<^verbatim>\<open>closest\<close> returns the empty string for an empty list of candidates;
  for a list that is not empty it returns a candidate of the list such that every candidate
  before it is strictly farther from the target and every candidate after it is at least
  as far: the candidate of minimum distance, the first one among equals.
\<close>

theorem closest_first_minimum:
  "closest dist t [] = [] \<and>
   (cs \<noteq> [] \<longrightarrow>
     (\<exists>us vs. cs = us @ closest dist t cs # vs
        \<and> (\<forall>u\<in>set us. dist t (closest dist t cs) < dist t u)
        \<and> (\<forall>v\<in>set vs. dist t (closest dist t cs) \<le> dist t v)))"
proof (intro conjI impI)
  show "closest dist t [] = []" by (simp add: closest_eq)
next
  assume ne: "cs \<noteq> []"
  then have "sort_key (dist t) cs \<noteq> []" by (metis length_sort length_0_conv)
  then obtain c rest where s: "sort_key (dist t) cs = c # rest" by (cases "sort_key (dist t) cs") auto
  then have c: "closest dist t cs = c" by (simp add: closest_eq)
  show "\<exists>us vs. cs = us @ closest dist t cs # vs
        \<and> (\<forall>u\<in>set us. dist t (closest dist t cs) < dist t u)
        \<and> (\<forall>v\<in>set vs. dist t (closest dist t cs) \<le> dist t v)"
    unfolding c by (rule hd_sort_key_first_min[OF s])
qed

text \<open>Two candidates at distance one from \<^verbatim>\<open>confi\<close>: the one listed first is returned.\<close>

theorem closest_first_minimum_witness:
  "[''confit'', ''config'', ''help''] \<noteq> []
   \<and> closest levenshtein ''confi'' [''confit'', ''config'', ''help''] = ''confit''
   \<and> levenshtein ''confi'' ''confit'' = levenshtein ''confi'' ''config''
   \<and> (\<exists>us vs. [''confit'', ''config'', ''help''] = us @ ''confit'' # vs
        \<and> (\<forall>u\<in>set us. levenshtein ''confi'' ''confit'' < levenshtein ''confi'' u)
        \<and> (\<forall>v\<in>set vs. levenshtein ''confi'' ''confit'' \<le> levenshtein ''confi'' v))"
proof -
  have e: "closest levenshtein ''confi'' [''confit'', ''config'', ''help''] = ''confit''"
    by code_simp
  have d: "levenshtein ''confi'' ''confit'' = levenshtein ''confi'' ''config''"
    by code_simp
  show ?thesis
    using closest_first_minimum[of levenshtein "''confi''" "[''confit'', ''config'', ''help'']"] d
    unfolding e by simp
qed

text \<open>
  Claim C8. \<^verbatim>\<open>getOrderedSuggestions\<close> ranks all candidates by ascending distance to the
  target and truncates the ranking with \<^verbatim>\<open>slice(0, limit)\<close>: for every count \<open>k\<close> given
  as the limit the result is the first \<open>k\<close> entries of the ranking, and the first three
  when the limit is omitted.
\<close>

theorem suggestions_ranked:
  "\<exists>ranked. mset ranked = mset cs \<and> sorted (map (dist t) ranked)
     \<and> getOrderedSuggestions dist t cs (Some (int k)) = take k ranked
     \<and> getOrderedSuggestions dist t cs None = take 3 ranked
     \<and> getOrderedSuggestions dist t cs (Some l) = js_slice 0 (Some l) ranked"
  by (rule exI[of _ "sort_key (dist t) cs"]) (simp add: suggestions_eq js_slice_take_nat js_slice_take)

text \<open>The two suggestions nearest to \<^verbatim>\<open>confi:set\<close> among three commands.\<close>

theorem suggestions_ranked_witness:
  "getOrderedSuggestions levenshtein ''confi:set'' [''help'', ''config:get'', ''config:set''] (Some 2)
       = [''config:set'', ''config:get'']
   \<and> (\<exists>ranked. mset ranked = mset [''help'', ''config:get'', ''config:set'']
        \<and> sorted (map (levenshtein ''confi:set'') ranked)
        \<and> getOrderedSuggestions levenshtein ''confi:set'' [''help'', ''config:get'', ''config:set''] (Some 2)
            = take 2 ranked)"
proof -
  have e: "getOrderedSuggestions levenshtein ''confi:set'' [''help'', ''config:get'', ''config:set''] (Some 2)
       = [''config:set'', ''config:get'']"
    by code_simp
  obtain ranked where r: "mset ranked = mset [''help'', ''config:get'', ''config:set'']"
      "sorted (map (levenshtein ''confi:set'') ranked)"
      "getOrderedSuggestions levenshtein ''confi:set''
          [''help'', ''config:get'', ''config:set''] (Some (int 2)) = take 2 ranked"
    using suggestions_ranked[where cs = "[''help'', ''config:get'', ''config:set'']"
        and dist = levenshtein and t = "''confi:set''" and k = 2 and l = 2]
    by blast
  from r(3) have "getOrderedSuggestions levenshtein ''confi:set''
          [''help'', ''config:get'', ''config:set''] (Some 2) = take 2 ranked" by simp
  with r(1,2) have x: "\<exists>ranked. mset ranked = mset [''help'', ''config:get'', ''config:set'']
        \<and> sorted (map (levenshtein ''confi:set'') ranked)
        \<and> getOrderedSuggestions levenshtein ''confi:set'' [''help'', ''config:get'', ''config:set''] (Some 2)
            = take 2 ranked" by blast
  show ?thesis by (intro conjI) (fact e, fact x)
qed

text \<open>
  Claim C9. \<^verbatim>\<open>findRelatedCommands\<close> splits the target at every colon: the segments,
  joined with colons, give the target back and no segment contains a colon. The related
  commands are the candidates, in list order, that differ from the target and contain a
  segment as a substring; they are truncated with \<^verbatim>\<open>slice(0, limit)\<close>: for every count
  \<open>k\<close> given as the limit the result is the first \<open>k\<close> of them, and the first two when
  the limit is omitted.
\<close>

theorem related_commands:
  "js_join '':'' (js_split CHR '':'' t) = t
   \<and> (\<forall>seg\<in>set (js_split CHR '':'' t). CHR '':'' \<notin> set seg)
   \<and> findRelatedCommands t cs (Some (int k)) =
       take k (filter (\<lambda>c. c \<noteq> t \<and> (\<exists>seg\<in>set (js_split CHR '':'' t). \<exists>u v. c = u @ seg @ v)) cs)
   \<and> findRelatedCommands t cs None =
       take 2 (filter (\<lambda>c. c \<noteq> t \<and> (\<exists>seg\<in>set (js_split CHR '':'' t). \<exists>u v. c = u @ seg @ v)) cs)
   \<and> findRelatedCommands t cs (Some l) =
       js_slice 0 (Some l)
         (filter (\<lambda>c. c \<noteq> t \<and> (\<exists>seg\<in>set (js_split CHR '':'' t). \<exists>u v. c = u @ seg @ v)) cs)"
  using js_join_split[of "CHR '':''" t] js_split_segments[of _ "CHR '':''" t]
  by (auto simp: related_eq js_slice_take_nat js_slice_take)

text \<open>
  The commands related to \<^verbatim>\<open>config:set\<close>: \<^verbatim>\<open>config:get\<close> contains \<^verbatim>\<open>config\<close> and
  \<^verbatim>\<open>reset\<close> contains \<^verbatim>\<open>set\<close>; the target itself is left out.
\<close>

theorem related_commands_witness:
  "js_split CHR '':'' ''config:set'' = [''config'', ''set'']
   \<and> findRelatedCommands ''config:set''
        [''help'', ''config:get'', ''config:set'', ''reset'', ''start:studio'', ''config''] (Some 2)
       = [''config:get'', ''reset'']
   \<and> findRelatedCommands ''config:set''
        [''help'', ''config:get'', ''config:set'', ''reset'', ''start:studio'', ''config''] (Some 2)
       = take 2
          (filter (\<lambda>c. c \<noteq> ''config:set''
                     \<and> (\<exists>seg\<in>set (js_split CHR '':'' ''config:set''). \<exists>u v. c = u @ seg @ v))
             [''help'', ''config:get'', ''config:set'', ''reset'', ''start:studio'', ''config''])"
proof -
  have s: "js_split CHR '':'' ''config:set'' = [''config'', ''set'']"
    by simp
  have e: "findRelatedCommands ''config:set''
        [''help'', ''config:get'', ''config:set'', ''reset'', ''start:studio'', ''config''] (Some 2)
       = [''config:get'', ''reset'']"
    by code_simp
  have i: "int 2 = 2" by simp
  have m: "findRelatedCommands ''config:set''
        [''help'', ''config:get'', ''config:set'', ''reset'', ''start:studio'', ''config''] (Some 2)
       = take 2
          (filter (\<lambda>c. c \<noteq> ''config:set''
                     \<and> (\<exists>seg\<in>set (js_split CHR '':'' ''config:set''). \<exists>u v. c = u @ seg @ v))
             [''help'', ''config:get'', ''config:set'', ''reset'', ''start:studio'', ''config''])"
    using related_commands[where t = "''config:set''"
        and cs = "[''help'', ''config:get'', ''config:set'', ''reset'', ''start:studio'', ''config'']"
        and k = 2 and l = 2]
    unfolding i by blast
  show ?thesis
    by (intro conjI) (fact s, fact e, fact m)
qed

text \<open>
  Claim C10. When the target begins or ends with a colon or has two colons in a row, one of
  its segments is empty and every candidate contains that segment. The result is then
  made of the candidates that differ from the target, truncated with
  \<^verbatim>\<open>slice(0, limit)\<close>: the first \<open>k\<close> of them for every count \<open>k\<close> given as the limit, the
  first two when the limit is omitted.
\<close>

theorem empty_segment_matches_all:
  assumes "(\<exists>u. t = CHR '':'' # u) \<or> (\<exists>u. t = u @ '':'') \<or> (\<exists>u v. t = u @ ''::'' @ v)"
  shows "[] \<in> set (js_split CHR '':'' t)
    \<and> (\<forall>c. list_ex (\<lambda>part. js_includes c part) (js_split CHR '':'' t))
    \<and> findRelatedCommands t cs (Some (int k)) = take k (filter (\<lambda>c. c \<noteq> t) cs)
    \<and> findRelatedCommands t cs None = take 2 (filter (\<lambda>c. c \<noteq> t) cs)
    \<and> findRelatedCommands t cs (Some l) = js_slice 0 (Some l) (filter (\<lambda>c. c \<noteq> t) cs)"
proof -
  have e: "[] \<in> set (js_split CHR '':'' t)"
    using assms by (intro empty_segment) auto
  then have a: "\<And>c. list_ex (\<lambda>part. js_includes c part) (js_split CHR '':'' t)"
    unfolding list_ex_iff using js_includes_empty by blast
  then have f: "\<And>lim. findRelatedCommands t cs lim =
      js_slice 0 (Some (case lim of None \<Rightarrow> 2 | Some l \<Rightarrow> l)) (filter (\<lambda>c. c \<noteq> t) cs)"
    by (simp add: findRelatedCommands_def Let_def)
  show ?thesis using e a by (simp add: f js_slice_take_nat js_slice_take)
qed

text \<open>The target \<^verbatim>\<open>config:\<close> brings up the first two commands of the list, related or not.\<close>

theorem empty_segment_matches_all_witness:
  "(\<exists>u. ''config:'' = u @ '':'')
   \<and> js_split CHR '':'' ''config:'' = [''config'', []]
   \<and> findRelatedCommands ''config:'' [''help'', ''config:'', ''version'', ''start:studio''] None
       = [''help'', ''version'']
   \<and> findRelatedCommands ''config:'' [''help'', ''config:'', ''version'', ''start:studio''] None
       = take 2 (filter (\<lambda>c. c \<noteq> ''config:'') [''help'', ''config:'', ''version'', ''start:studio''])"
proof -
  have h: "\<exists>u. ''config:'' = u @ '':''"
    by (rule exI[of _ "''config''"]) simp
  then have h': "(\<exists>u. ''config:'' = CHR '':'' # u) \<or> (\<exists>u. ''config:'' = u @ '':'')
      \<or> (\<exists>u v. ''config:'' = u @ ''::'' @ v)" by blast
  have m: "findRelatedCommands ''config:'' [''help'', ''config:'', ''version'', ''start:studio''] None
       = take 2 (filter (\<lambda>c. c \<noteq> ''config:'') [''help'', ''config:'', ''version'', ''start:studio''])"
    using empty_segment_matches_all[OF h',
        where cs = "[''help'', ''config:'', ''version'', ''start:studio'']" and k = 2 and l = 2]
    by blast
  then show ?thesis using h by simp
qed


subsection \<open>Command history\<close>

text \<open>
  Claim C6. Whatever the configuration object holds before, after one or more calls of
  \<^verbatim>\<open>saveCommandHistory\<close> the history has at most 100 entries: the last 100 of the
  entries it had followed by the appended ones, oldest first. After 150 appends to a
  configuration without a history, the entries are those of the appends 50 to 149.
\<close>

theorem command_history_bounded:
  "length (entries (saveAll h (c # cs))) \<le> 100
   \<and> entries (saveAll h (c # cs)) = last_n 100 (entries h @ map entry_of (c # cs))
   \<and> entries (saveAll None (map f [0..<150])) = map (\<lambda>i. entry_of (f i)) [50..<150]"
proof (intro conjI)
  show "length (entries (saveAll h (c # cs))) \<le> 100"
    unfolding entries_saveAll by (simp add: last_n_def)
  show "entries (saveAll h (c # cs)) = last_n 100 (entries h @ map entry_of (c # cs))"
    by (rule entries_saveAll)
  have "map f [0..<150] = f 0 # map f [1..<150]"
    by (simp add: upt_conv_Cons)
  then have "entries (saveAll None (map f [0..<150])) = last_n 100 (entries None @ map entry_of (map f [0..<150]))"
    using entries_saveAll[of None "f 0" "map f [1..<150]"] by simp
  also have "\<dots> = map (\<lambda>i. entry_of (f i)) [50..<150]"
    by (simp add: last_n_def entries_def drop_map comp_def)
  finally show "entries (saveAll None (map f [0..<150])) = map (\<lambda>i. entry_of (f i)) [50..<150]" .
qed


subsection \<open>Plugins of the user configuration\<close>

text \<open>
  Claim C4, as the loader does it. \<^verbatim>\<open>loadUserConfigPlugins\<close> handles the entries of the
  \<^verbatim>\<open>plugins\<close> mapping one after the other, each in the state the entries before it have
  left. An enabled entry whose identifier is not a path is loaded as a package unless a
  plugin is already registered under the identifier as the configuration writes it, before
  any prefix is added. The package is imported under the identifier itself when it starts
  with \<^verbatim>\<open>asyncapi-cli-plugin-\<close> and under the prefixed identifier otherwise. An entry that
  is skipped, or not enabled, leaves the registry and the imports as they were.
\<close>

theorem user_config_package_entry:
  assumes "\<not> is_path pluginName"
  shows "loadUserConfigPlugins env (Found filepath (Some (before @ (pluginName, enabled) # after))) st
           = loadUserConfigPlugins env (Found filepath (Some after))
               (load_config_entry env filepath (pluginName, enabled)
                  (loadUserConfigPlugins env (Found filepath (Some before)) st))
         \<and> load_config_entry env filepath (pluginName, True) st =
           (if getPlugin pluginName (registry st) = None
            then \<lparr>registry = register_default (import_module env (resolved_name pluginName)) (registry st),
                  imported = imported st @ [resolved_name pluginName]\<rparr>
            else st)
         \<and> resolved_name pluginName =
             (if js_startsWith pluginName ''asyncapi-cli-plugin-'' then pluginName
              else ''asyncapi-cli-plugin-'' @ pluginName)
         \<and> load_config_entry env filepath (pluginName, False) st = st"
  using assms
  by (simp add: loadUserConfigPlugins_def load_config_entry_def is_path_def load_from_def
        resolved_name_def MODULE_PREFIX_def)

text \<open>
  The entry \<^verbatim>\<open>foo\<close> is imported as \<^verbatim>\<open>asyncapi-cli-plugin-foo\<close> into an empty registry; the
  entry \<^verbatim>\<open>asyncapi-cli-plugin-foo\<close> is skipped when a plugin of that name is registered.
\<close>

theorem user_config_package_entry_witness:
  "\<not> is_path ''foo''
   \<and> getPlugin ''foo'' (registry nothing_loaded) = None
   \<and> resolved_name ''foo'' = ''asyncapi-cli-plugin-foo''
   \<and> load_config_entry foo_env ''/home/user/.asyncapirc'' (''foo'', True) nothing_loaded
       = \<lparr>registry = [foo_plugin], imported = [''asyncapi-cli-plugin-foo'']\<rparr>
   \<and> \<not> is_path ''asyncapi-cli-plugin-foo''
   \<and> getPlugin ''asyncapi-cli-plugin-foo'' (registry foo_loaded) = Some foo_plugin
   \<and> load_config_entry foo_env ''/home/user/.asyncapirc'' (''asyncapi-cli-plugin-foo'', True) foo_loaded
       = foo_loaded"
proof -
  have p: "\<not> is_path ''foo''" by (simp add: is_path_def js_startsWith_def)
  have q: "\<not> is_path ''asyncapi-cli-plugin-foo''" by (simp add: is_path_def js_startsWith_def)
  have g: "getPlugin ''foo'' (registry nothing_loaded) = None"
    by (simp add: getPlugin_def nothing_loaded_def)
  have g': "getPlugin ''asyncapi-cli-plugin-foo'' (registry foo_loaded) = Some foo_plugin"
    by (simp add: getPlugin_def foo_loaded_def foo_plugin_def)
  have r: "resolved_name ''foo'' = ''asyncapi-cli-plugin-foo''"
    by (simp add: resolved_name_def MODULE_PREFIX_def js_startsWith_def)
  have i: "register_default (import_module foo_env ''asyncapi-cli-plugin-foo'') (registry nothing_loaded)
            = [foo_plugin]"
    by (simp add: foo_env_def register_default_def registerPlugin_def getPlugin_def nothing_loaded_def
          foo_plugin_def)
  have n: "imported nothing_loaded = []" by (simp add: nothing_loaded_def)
  note main = user_config_package_entry[OF p, where env = foo_env
      and filepath = "''/home/user/.asyncapirc''" and st = nothing_loaded
      and before = "[]" and after = "[]" and enabled = True]
  note main' = user_config_package_entry[OF q, where env = foo_env
      and filepath = "''/home/user/.asyncapirc''" and st = foo_loaded
      and before = "[]" and after = "[]" and enabled = True]
  have a: "load_config_entry foo_env ''/home/user/.asyncapirc'' (''foo'', True) nothing_loaded
       = \<lparr>registry = [foo_plugin], imported = [''asyncapi-cli-plugin-foo'']\<rparr>"
    unfolding conjunct1[OF conjunct2[OF main]] g r i n by simp
  have b: "load_config_entry foo_env ''/home/user/.asyncapirc'' (''asyncapi-cli-plugin-foo'', True) foo_loaded
       = foo_loaded"
    unfolding conjunct1[OF conjunct2[OF main']] g' by simp
  show ?thesis
    by (intro conjI) (fact p, fact g, fact r, fact a, fact q, fact g', fact b)
qed

text \<open>
  The claim as the specification states it asks the loader to skip an entry when a plugin
  of the resolved name is registered. Here the registry holds a plugin named
  \<^verbatim>\<open>asyncapi-cli-plugin-foo\<close>, the resolved name of the enabled entry \<^verbatim>\<open>foo\<close>, and the
  loader imports the package all the same.
\<close>

theorem resolved_name_registered_not_skipped:
  "\<not> is_path ''foo''
   \<and> resolved_name ''foo'' = ''asyncapi-cli-plugin-foo''
   \<and> getPlugin (resolved_name ''foo'') (registry foo_loaded) = Some foo_plugin
   \<and> imported foo_loaded = []
   \<and> imported (loadUserConfigPlugins foo_env (Found ''/home/user/.asyncapirc'' (Some [(''foo'', True)]))
                 foo_loaded)
       = [''asyncapi-cli-plugin-foo'']"
  by (simp add: is_path_def js_startsWith_def resolved_name_def MODULE_PREFIX_def getPlugin_def
        foo_loaded_def foo_plugin_def loadUserConfigPlugins_def load_config_entry_def load_from_def)


subsection \<open>The handler for a command that was not found\<close>

text \<open>
  Claim C5, as the handler does it. When the prompt for the primary suggestion is
  confirmed, the handler runs the suggestion. The arguments are the arguments of the
  invocation, unchanged, when there are any; otherwise they are the segments of the typed
  id past as many segments as the suggestion has. When the suggestion starts with
  \<^verbatim>\<open>help:\<close>, its segments after the first become the arguments and the command is
  \<^verbatim>\<open>help\<close>. When the typed id is exactly \<^verbatim>\<open>help\<close>, the handler runs \<^verbatim>\<open>--help\<close> and
  passes no arguments.
\<close>

theorem confirmed_primary_run:
  assumes "opts_id opts \<noteq> ''--help''"
    and "visible_command_ids (opts_config opts) \<noteq> []"
    and "primary_answer env = Yes"
  shows "fst (commandNotFoundHook env opts m0) =
     (if opts_id opts = ''help'' then Resolved ''--help'' None
      else if js_startsWith (suggestion_of env opts) ''help:''
        then Resolved ''help'' (Some (tl (js_split CHR '':'' (suggestion_of env opts))))
      else Resolved (suggestion_of env opts)
             (Some (case opts_argv opts of
                      Some (a # as) \<Rightarrow> a # as
                    | _ \<Rightarrow> drop (length (js_split CHR '':'' (suggestion_of env opts)))
                             (js_split CHR '':'' (opts_id opts)))))"
  using assms
  by (simp add: outcome_cases out_start primary_argv_def js_slice_drop js_slice_tl
        split: option.splits list.splits)

text \<open>
  The typed id \<^verbatim>\<open>confi:set\<close> among the commands \<^verbatim>\<open>config:set\<close>, \<^verbatim>\<open>config:get\<close> and
  \<^verbatim>\<open>help\<close>: the suggestion \<^verbatim>\<open>config:set\<close> is run with the arguments of the invocation.
\<close>

theorem confirmed_primary_run_witness:
  "opts_id typo_opts \<noteq> ''--help''
   \<and> visible_command_ids (opts_config typo_opts) \<noteq> []
   \<and> primary_answer (answering Yes No) = Yes
   \<and> opts_id typo_opts \<noteq> ''help''
   \<and> suggestion_of (answering Yes No) typo_opts = ''config:set''
   \<and> opts_argv typo_opts = Some [''--verbose'']
   \<and> fst (commandNotFoundHook (answering Yes No) typo_opts new_HookManager)
       = Resolved ''config:set'' (Some [''--verbose''])"
proof -
  have a: "opts_id typo_opts \<noteq> ''--help''" by (simp add: typo_opts_def)
  have b: "visible_command_ids (opts_config typo_opts) \<noteq> []" by (simp add: vis_typo)
  have c: "primary_answer (answering Yes No) = Yes" by (simp add: answering_def)
  have d: "\<not> js_startsWith ''config:set'' ''help:''" by (simp add: js_startsWith_def)
  have e: "opts_id typo_opts \<noteq> ''help''" by (simp add: typo_opts_def)
  have f: "opts_argv typo_opts = Some [''--verbose'']" by (simp add: typo_opts_def)
  have r: "fst (commandNotFoundHook (answering Yes No) typo_opts new_HookManager)
       = Resolved ''config:set'' (Some [''--verbose''])"
    unfolding confirmed_primary_run[OF a b c, of new_HookManager] sug_typo f using d e by simp
  show ?thesis
    by (intro conjI) (fact a, fact b, fact c, fact e, fact sug_typo, fact f, fact r)
qed

text \<open>
  The claim as the specification states it has the suggested command run with the
  remaining arguments of the invocation. For the typed id \<^verbatim>\<open>help\<close> with the argument
  \<^verbatim>\<open>config\<close> the suggestion is \<^verbatim>\<open>help\<close>, and the handler runs \<^verbatim>\<open>--help\<close> without
  arguments.
\<close>

theorem help_runs_help_flag:
  "opts_id help_opts \<noteq> ''--help''
   \<and> visible_command_ids (opts_config help_opts) \<noteq> []
   \<and> primary_answer (answering Yes No) = Yes
   \<and> suggestion_of (answering Yes No) help_opts = ''help''
   \<and> \<not> js_startsWith (suggestion_of (answering Yes No) help_opts) ''help:''
   \<and> opts_argv help_opts = Some [''config'']
   \<and> fst (commandNotFoundHook (answering Yes No) help_opts new_HookManager) = Resolved ''--help'' None
   \<and> fst (commandNotFoundHook (answering Yes No) help_opts new_HookManager)
        \<noteq> Resolved (suggestion_of (answering Yes No) help_opts) (Some [''config''])"
proof -
  have s: "suggestion_of (answering Yes No) help_opts = ''help''" by code_simp
  have v: "visible_command_ids (opts_config help_opts) = [''config:set'', ''config:get'']"
    by (simp add: visible_command_ids_def help_opts_def cli_config_def)
  have o: "fst (commandNotFoundHook (answering Yes No) help_opts new_HookManager) = Resolved ''--help'' None"
    by (simp add: outcome_cases out_start v) (simp add: help_opts_def answering_def)
  show ?thesis
    unfolding o s by (simp add: v js_startsWith_def) (simp add: help_opts_def answering_def)
qed

text \<open>
  Claim C7. The handler ends with \<^verbatim>\<open>this.error\<close> exactly when the id is not the help
  flag, some command is visible, the primary prompt was not confirmed, and the prompt for
  the alternative was not confirmed or there is no alternative. Then the exit status is
  127, and the manager the handler leaves is the result of executing the \<^verbatim>\<open>error\<close>
  hooks, whatever their handlers do, on a manager with the same hooks whose context holds
  the error \<^verbatim>\<open>Command not found: <id>\<close>.
\<close>

theorem fail_state:
  "is_Fatal (fst (commandNotFoundHook env opts m0)) =
      (opts_id opts \<noteq> ''--help'' \<and> visible_command_ids (opts_config opts) \<noteq> []
       \<and> primary_answer env \<noteq> Yes
       \<and> (alternatives_of env opts = [] \<or> alternative_answer env \<noteq> Yes))
   \<and> (is_Fatal (fst (commandNotFoundHook env opts m0)) \<longrightarrow>
        fst (commandNotFoundHook env opts m0)
          = Fatal (''Run '' @ bin_help opts @ '' for a list of available commands.'') 127
        \<and> (\<exists>m1. hooks m1 = hooks m0
              \<and> hook_context m1 ''error'' = Some (Err (''Command not found: '' @ opts_id opts))
              \<and> fst (snd (commandNotFoundHook env opts m0))
                  = snd (executeWithContext ''error'' [Obj ''opts''] m1)))"
proof -
  let ?cond = "opts_id opts \<noteq> ''--help'' \<and> visible_command_ids (opts_config opts) \<noteq> []
       \<and> primary_answer env \<noteq> Yes
       \<and> (alternatives_of env opts = [] \<or> alternative_answer env \<noteq> Yes)"
  have iff: "is_Fatal (fst (commandNotFoundHook env opts m0)) = ?cond"
    by (auto simp: outcome_cases out_start out_alt out_fail)
  have out: "?cond \<Longrightarrow> fst (commandNotFoundHook env opts m0)
          = Fatal (''Run '' @ bin_help opts @ '' for a list of available commands.'') 127"
    by (auto simp: outcome_cases out_fail)
  have mgr: "?cond \<Longrightarrow> fst (snd (commandNotFoundHook env opts m0)) = snd (fail opts (start opts m0))"
    by (rule manager_after_fail) simp_all
  have ex: "\<exists>m1. hooks m1 = hooks m0
              \<and> hook_context m1 ''error'' = Some (Err (''Command not found: '' @ opts_id opts))
              \<and> fst (snd (commandNotFoundHook env opts m0))
                  = snd (executeWithContext ''error'' [Obj ''opts''] m1)" if c: ?cond
    using snd_fail[of "start opts m0" opts] unfolding mgr[OF c] hooks_start .
  show ?thesis using iff out ex by blast
qed

text \<open>
  Both prompts declined, with two \<^verbatim>\<open>error\<close> handlers that fail: the handlers give failed
  results, the context holds the error, and the handler ends with status 127.
\<close>

theorem fail_state_witness:
  "opts_id typo_opts \<noteq> ''--help''
   \<and> visible_command_ids (opts_config typo_opts) \<noteq> []
   \<and> primary_answer (answering No No) \<noteq> Yes
   \<and> alternatives_of (answering No No) typo_opts = [''config:get'', ''help'']
   \<and> alternative_answer (answering No No) \<noteq> Yes
   \<and> is_Fatal (fst (commandNotFoundHook (answering No No) typo_opts failing_error_hooks))
   \<and> fst (commandNotFoundHook (answering No No) typo_opts failing_error_hooks)
       = Fatal ''Run asyncapi help for a list of available commands.'' 127
   \<and> hook_context (fst (snd (commandNotFoundHook (answering No No) typo_opts failing_error_hooks))) ''error''
       = Some (Err ''Command not found: confi:set'')
   \<and> fst (executeWithContext ''error'' [Obj ''opts''] failing_error_hooks)
       = [failed (Err ''boom''),
          failed (Err (''Hook '' @ [CHR 0x27] @ ''error'' @ [CHR 0x27] @ '' timed out after 30000ms''))]"
proof -
  have a: "opts_id typo_opts \<noteq> ''--help''" by (simp add: typo_opts_def)
  have b: "visible_command_ids (opts_config typo_opts) \<noteq> []" by (simp add: vis_typo)
  have c: "primary_answer (answering No No) \<noteq> Yes" by (simp add: answering_def)
  have d: "alternatives_of (answering No No) typo_opts = [''config:get'', ''help'']" by code_simp
  have e: "alternative_answer (answering No No) \<noteq> Yes" by (simp add: answering_def)
  note main = fail_state[of "answering No No" typo_opts failing_error_hooks]
  have f: "is_Fatal (fst (commandNotFoundHook (answering No No) typo_opts failing_error_hooks))"
    unfolding conjunct1[OF main] using a b c e by simp
  have h: "bin_help typo_opts = ''asyncapi help''"
    by (simp add: bin_help_def typo_opts_def cli_config_def)
  have g: "fst (commandNotFoundHook (answering No No) typo_opts failing_error_hooks)
       = Fatal ''Run asyncapi help for a list of available commands.'' 127"
    using conjunct2[OF main] f by (simp add: h)
  have ch: "chain failing_error_hooks ''error'' =
     [hook_of (''error'', throwing (Str ''boom''), no_options),
      hook_of (''error'', never_resolving, no_options)]"
    unfolding failing_error_hooks_def chain_new
    by (simp add: registrations_def hook_of_def effective_priority_def no_options_def
          merge_options_def spread_def or_zero_def)
  have x: "fst (executeWithContext ''error'' [Obj ''opts''] failing_error_hooks)
       = [failed (Err ''boom''),
          failed (Err (''Hook '' @ [CHR 0x27] @ ''error'' @ [CHR 0x27] @ '' timed out after 30000ms''))]"
    unfolding executeWithContext_def execute_results ch
    by (simp add: hook_of_def throwing_def never_resolving_def hook_result_def failed_def
          timeout_message_def no_options_def merge_options_def spread_def show_int_def
          show_nat.simps digit_char_def)
  have k: "hook_context (fst (snd (commandNotFoundHook (answering No No) typo_opts failing_error_hooks))) ''error''
       = Some (Err ''Command not found: confi:set'')"
    unfolding manager_after_fail[OF a b c disjI2[OF e]] context_after_fail chain_start ch
    by (simp add: hook_of_def throwing_def never_resolving_def HookContext_set_def typo_opts_def)
  show ?thesis
    by (intro conjI) (fact a, fact b, fact c, fact d, fact e, fact f, fact g, fact k, fact x)
qed
end
